theory Spec2Isabelle
  imports Complex_Main
begin

section \<open>The capture cycle of scoop-witness-api\<close>

text \<open>
  A shallow embedding of \<^verbatim>\<open>start_capture_process\<close> (\<^verbatim>\<open>scoop_witness_api/tasks.py\<close>).
  The task reads and writes a job table, the file system and the task queue, probes a
  port, runs a child process and posts a webhook. The table, the file system and a clock
  are an explicit state (\<open>world\<close>); every outward action is appended to a trace of events
  in the order the code performs it; what the outside answers (the probe, the engine run,
  other workers, the webhook endpoint) is read from an environment record.
  Console output is not modelled, with one exception: the line printed for each
  attachment that is not on disk is the event \<open>NotFound\<close>.
\<close>

subsection \<open>Data model\<close>

text \<open>
  Modelled from the spec: the \<^verbatim>\<open>Capture\<close> peewee model is declared in \<^verbatim>\<open>models.py\<close>,
  which is not among the sources. The record has the fields of the specification's capture
  job that \<^verbatim>\<open>tasks.py\<close> reads or assigns, under the names \<^verbatim>\<open>tasks.py\<close> uses; the four
  status strings are a datatype.
\<close>

datatype status = Pending | Started | Success | Failed

text \<open>
  The JSON summary written by the engine: its \<^verbatim>\<open>"attachments"\<close> member maps a kind to a
  filename or to a list of filenames. \<open>None\<close> stands for a document on which
  \<^verbatim>\<open>json_summary["attachments"].values()\<close> raises (no such key, or not an object).
\<close>

datatype attachment_entry = Single string | Many "string list"

datatype json_summary = JsonSummary (attachments: "(string \<times> attachment_entry) list option")

record capture =
  id_capture :: string
  url :: string
  callback_url :: "string option"
  status :: status
  created_timestamp :: nat
  started_timestamp :: "nat option"
  ended_timestamp :: "nat option"
  stdout_logs :: "string option"
  stderr_logs :: "string option"
  summary :: "json_summary option"

text \<open>
  The file system: a listing of directory entries, each under its absolute path in
  canonical form (a separator before every name, no \<^verbatim>\<open>.\<close>, \<^verbatim>\<open>..\<close> or empty name), with
  what the entry holds. The root is not listed. Symbolic links are not modelled.
\<close>

datatype content = Dir | Blob | Json json_summary

type_synonym filesystem = "(string \<times> content) list"

text \<open>Command-line arguments: \<open>Num n\<close> stands for \<^verbatim>\<open>str(n)\<close>.\<close>

datatype arg = Lit string | Num int

datatype opt_value = Number int | Text string

datatype event =
    Head int
  | Update string
  | Popen "arg list"
  | Sleep nat
  | Kill
  | NotFound string
  | Post string capture nat
  | Delay int

record world =
  store :: "capture list"
  files :: filesystem
  clock :: nat
  trace :: "event list"

subsection \<open>Environment\<close>

text \<open>
  \<open>Response\<close>: \<^verbatim>\<open>requests.head\<close> returned (any HTTP status);
  \<open>ReadTimeout\<close>: it raised \<^verbatim>\<open>requests.exceptions.ReadTimeout\<close>;
  \<open>OtherException\<close>: it raised anything else (connection refused, connect timeout, DNS).
\<close>

datatype probe_result = Response nat | ReadTimeout | OtherException

text \<open>Captured bytes either decode as UTF-8 or make \<^verbatim>\<open>decode("utf-8")\<close> raise.\<close>

datatype bytes = Utf8 string | Invalid

text \<open>
  One run of the child process: the seconds it takes to exit by itself, whether the
  worker is interrupted while waiting, what \<^verbatim>\<open>process.poll()\<close> answers once
  \<^verbatim>\<open>communicate\<close> has returned, the two captured streams (on a timeout: what had been
  captured so far), and the files it leaves on disk.
\<close>

record engine_run =
  duration :: rat
  interrupted :: bool
  poll :: "int option"
  stdout :: bytes
  stderr :: bytes
  writes :: filesystem

record config =
  SCOOP_CLI_OPTIONS :: "(string \<times> opt_value) list"
  DEPLOYMENT_SENTINEL_PATH :: string
  TEMPORARY_STORAGE_PATH :: string
  DOWNGRADE_TO_WARC :: bool
  SCOOP_TIMEOUT_FUSE :: int

text \<open>
  \<open>popen\<close> is the run of the child process that this cycle spawns (at most one);
  \<open>interference\<close> is what other workers do to the job table between this worker's
  \<^verbatim>\<open>SELECT\<close> and its conditional \<^verbatim>\<open>UPDATE\<close>; \<open>requests_post\<close> tells whether the
  webhook delivery returned (\<open>True\<close>) or raised.
\<close>

record env =
  app_config :: config
  requests_head :: "int \<Rightarrow> probe_result"
  interference :: "capture list \<Rightarrow> capture list"
  popen :: engine_run
  requests_post :: "string \<Rightarrow> bool"

datatype exn = TimeoutExpired | OtherError | Interrupt

text \<open>
  What the \<^verbatim>\<open>try\<close> block hands to its handlers and to \<^verbatim>\<open>finally\<close>: the exception
  raised (if any), the local variable \<^verbatim>\<open>capture\<close>, whether \<^verbatim>\<open>process\<close> is bound, and
  the state reached.
\<close>

type_synonym frame = "exn option \<times> capture option \<times> bool \<times> world"

subsection \<open>Primitive operations\<close>

definition os_sep :: string where
  "os_sep = ''/''"

definition emit :: "event \<Rightarrow> world \<Rightarrow> world" where
  "emit ev w = w\<lparr>trace := trace w @ [ev]\<rparr>"

definition utcnow :: "world \<Rightarrow> nat \<times> world" where
  "utcnow w = (clock w, w\<lparr>clock := Suc (clock w)\<rparr>)"

text \<open>
  Path resolution, as the operating system does it for \<^verbatim>\<open>os.path.exists\<close> and
  \<^verbatim>\<open>open\<close>: the path string is cut at every separator and the names are followed from
  the root (a relative path is taken from the root too). A name can only be looked up in
  a directory; an empty name and \<^verbatim>\<open>.\<close> stay in place, \<^verbatim>\<open>..\<close> goes to the parent.
\<close>

fun components :: "string \<Rightarrow> string list" where
  "components [] = [[]]"
| "components (c # cs) =
     (if c = CHR ''/'' then [] # components cs
      else (case components cs of [] \<Rightarrow> [[c]] | x # xs \<Rightarrow> (c # x) # xs))"

definition join :: "string list \<Rightarrow> string" where
  "join cur = concat (map (\<lambda>name. os_sep @ name) cur)"

definition is_dir :: "filesystem \<Rightarrow> string list \<Rightarrow> bool" where
  "is_dir fs cur = (cur = [] \<or> map_of fs (join cur) = Some Dir)"

fun walk :: "filesystem \<Rightarrow> string list \<Rightarrow> string list \<Rightarrow> string list option" where
  "walk fs cur [] = Some cur"
| "walk fs cur (name # names) =
     (if \<not> is_dir fs cur then None
      else if name = [] \<or> name = ''.'' then walk fs cur names
      else if name = ''..'' then walk fs (butlast cur) names
      else walk fs (cur @ [name]) names)"

definition lookup_path :: "filesystem \<Rightarrow> string \<Rightarrow> content option" where
  "lookup_path fs p =
     (if p = [] then None
      else (case walk fs [] (components p) of
              None \<Rightarrow> None
            | Some cur \<Rightarrow> if cur = [] then Some Dir else map_of fs (join cur)))"

definition path_exists :: "filesystem \<Rightarrow> string \<Rightarrow> bool" where
  "path_exists fs p = (lookup_path fs p \<noteq> None)"

text \<open>\<^verbatim>\<open>json.load(open(p))\<close>: \<open>None\<close> when opening or parsing raises.\<close>

definition json_load :: "filesystem \<Rightarrow> string \<Rightarrow> json_summary option" where
  "json_load fs p = (case lookup_path fs p of Some (Json j) \<Rightarrow> Some j | _ \<Rightarrow> None)"

text \<open>
  \<^verbatim>\<open>os.makedirs(path)\<close> creates the directory and the missing directories above it. It
  raises (here \<open>None\<close>) when the last name already exists (\<^verbatim>\<open>FileExistsError\<close>) or when
  a name on the way is not a directory; the flag tells whether the last name followed was
  created by this call. A call that raises is taken to leave the file system as it was.
\<close>

fun mkdirs :: "filesystem \<Rightarrow> string list \<Rightarrow> string list \<Rightarrow> bool \<Rightarrow> filesystem option" where
  "mkdirs fs cur [] created = (if created then Some fs else None)"
| "mkdirs fs cur (name # names) created =
     (if \<not> is_dir fs cur then None
      else if name = [] \<or> name = ''.'' then mkdirs fs cur names created
      else if name = ''..'' then mkdirs fs (butlast cur) names False
      else (case map_of fs (join (cur @ [name])) of
              None \<Rightarrow> mkdirs ((join (cur @ [name]), Dir) # fs) (cur @ [name]) names True
            | Some _ \<Rightarrow> mkdirs fs (cur @ [name]) names False))"

definition makedirs :: "string \<Rightarrow> world \<Rightarrow> world option" where
  "makedirs p w =
     (if p = [] then None
      else (case mkdirs (files w) [] (components p) False of
              None \<Rightarrow> None
            | Some fs \<Rightarrow> Some (w\<lparr>files := fs\<rparr>)))"

definition decode :: "bytes \<Rightarrow> string option" where
  "decode b = (case b of Utf8 s \<Rightarrow> Some s | Invalid \<Rightarrow> None)"

text \<open>
  \<^verbatim>\<open>Capture.select().where(status == "pending").order_by("created_timestamp").paginate(1, 1)\<close>.
  The argument of \<^verbatim>\<open>order_by\<close> is a Python string, not the field: peewee binds it as a
  constant, every row gets the same sort key, and the page is the first pending row in the
  order of the table.
\<close>

definition select_pending :: "capture list \<Rightarrow> capture list" where
  "select_pending s = take 1 (filter (\<lambda>c. status c = Pending) s)"

text \<open>
  \<^verbatim>\<open>Capture.update(status="started").where(id_capture == i, status == "pending").execute()\<close>
  returns the number of rows changed, with the new table.
\<close>

definition update_started :: "string \<Rightarrow> capture list \<Rightarrow> nat \<times> capture list" where
  "update_started i s =
     (length (filter (\<lambda>c. id_capture c = i \<and> status c = Pending) s),
      map (\<lambda>c. if id_capture c = i \<and> status c = Pending then c\<lparr>status := Started\<rparr> else c) s)"

text \<open>\<^verbatim>\<open>Capture.get(id_capture == i)\<close> raises \<^verbatim>\<open>DoesNotExist\<close> (here \<open>None\<close>) without a row.\<close>

definition get_capture :: "string \<Rightarrow> capture list \<Rightarrow> capture option" where
  "get_capture i s = find (\<lambda>c. id_capture c = i) s"

text \<open>\<^verbatim>\<open>capture.save()\<close> writes every field of the instance to the row with its key.\<close>

definition save :: "capture \<Rightarrow> world \<Rightarrow> world" where
  "save c w = w\<lparr>store := map (\<lambda>r. if id_capture r = id_capture c then c else r) (store w)\<rparr>"

subsection \<open>The port probe (lines 95-101)\<close>

definition proxy_port_is_available :: "probe_result \<Rightarrow> bool" where
  "proxy_port_is_available r =
     (case r of Response _ \<Rightarrow> False | ReadTimeout \<Rightarrow> False | OtherException \<Rightarrow> True)"

subsection \<open>Checking the capture results (lines 212-265)\<close>

definition collect_filenames :: "attachment_entry list \<Rightarrow> string list" where
  "collect_filenames vs =
     foldl (\<lambda>filenames_to_check filename.
              case filename of Many fs \<Rightarrow> filenames_to_check @ fs
                             | Single f \<Rightarrow> filenames_to_check @ [f]) [] vs"

definition check_filename :: "string \<Rightarrow> bool \<times> world \<Rightarrow> string \<Rightarrow> bool \<times> world" where
  "check_filename attachments_path sw filename =
     (let filepath = attachments_path @ os_sep @ filename
      in if \<not> path_exists (files (snd sw)) filepath
         then (False, emit (NotFound filepath) (snd sw))
         else sw)"

definition check_filenames :: "string \<Rightarrow> string list \<Rightarrow> bool \<times> world \<Rightarrow> bool \<times> world" where
  "check_filenames attachments_path filenames_to_check sw =
     foldl (check_filename attachments_path) sw filenames_to_check"

definition report :: "capture \<Rightarrow> bool \<Rightarrow> world \<Rightarrow> frame" where
  "report capture success w =
     (let capture = capture\<lparr>status := (if success then Success else Failed)\<rparr>
      in (None, Some capture, True, save capture w))"

text \<open>
  \<open>failed_reason\<close> is only printed, but line 231 tests it; the exit code inside the
  first message is not rendered.
\<close>

definition check_capture_results ::
  "capture \<Rightarrow> int option \<Rightarrow> string \<Rightarrow> string \<Rightarrow> string \<Rightarrow> world \<Rightarrow> frame" where
  "check_capture_results capture scoop_exit_code archive_path json_summary_path attachments_path w =
     (let (now, w) = utcnow w;
          capture = capture\<lparr>status := Failed, ended_timestamp := Some now\<rparr>;
          success = False;
          failed_reason = (if scoop_exit_code \<noteq> Some 0 then ''exit code'' else '''')
      in if scoop_exit_code = Some 0 then
           let success = True;
               (success, failed_reason) =
                 (if \<not> path_exists (files w) archive_path
                  then (False, archive_path @ '' not found'') else (success, failed_reason));
               (success, failed_reason) =
                 (if \<not> path_exists (files w) json_summary_path \<and> failed_reason = []
                  then (False, json_summary_path @ '' not found'') else (success, failed_reason))
           in if success then
                (case json_load (files w) json_summary_path of
                   None \<Rightarrow> (Some OtherError, Some capture, True, w)
                 | Some json_summary \<Rightarrow>
                     let capture = capture\<lparr>summary := Some json_summary\<rparr>
                     in (case attachments json_summary of
                           None \<Rightarrow> (Some OtherError, Some capture, True, w)
                         | Some atts \<Rightarrow>
                             let filenames_to_check = collect_filenames (map snd atts);
                                 (success, w) = check_filenames attachments_path filenames_to_check (success, w)
                             in report capture success w))
              else report capture success w
         else report capture success w)"

subsection \<open>Running the engine (lines 166-206)\<close>

definition str_value :: "opt_value \<Rightarrow> arg" where
  "str_value v = (case v of Number n \<Rightarrow> Num n | Text s \<Rightarrow> Lit s)"

definition scoop_args_of ::
  "config \<Rightarrow> capture \<Rightarrow> string \<Rightarrow> string \<Rightarrow> string \<Rightarrow> string \<Rightarrow> int \<Rightarrow> arg list" where
  "scoop_args_of cfg capture archive_path archive_format json_summary_path attachments_path proxy_port =
     [Lit ''npx'', Lit ''scoop'', Lit (url capture),
      Lit ''--output'', Lit archive_path,
      Lit ''--format'', Lit archive_format,
      Lit ''--json-summary-output'', Lit json_summary_path,
      Lit ''--export-attachments-output'', Lit attachments_path,
      Lit ''--proxy-port'', Num proxy_port]
     @ concat (map (\<lambda>(key, v). [Lit key, str_value v]) (SCOOP_CLI_OPTIONS cfg))"

text \<open>
  \<^verbatim>\<open>scoop_options["--capture-timeout"] / 1000 + int(SCOOP_TIMEOUT_FUSE)\<close>, in seconds and in
  exact arithmetic (the rounding of the floating-point sum is not modelled). \<open>None\<close> when
  evaluating or using the bound raises: the key is missing, its value is not a number, or
  the bound is more than 2147483647 milliseconds, which the wait inside
  \<^verbatim>\<open>communicate\<close> refuses with \<^verbatim>\<open>OverflowError\<close>.
\<close>

definition communicate_timeout :: "config \<Rightarrow> rat option" where
  "communicate_timeout cfg =
     (case map_of (SCOOP_CLI_OPTIONS cfg) ''--capture-timeout'' of
        Some (Number ms) \<Rightarrow>
          (let timeout = of_int ms / 1000 + of_int (SCOOP_TIMEOUT_FUSE cfg)
           in if timeout * 1000 > 2147483647 then None else Some timeout)
      | _ \<Rightarrow> None)"

definition run_capture ::
  "env \<Rightarrow> int \<Rightarrow> capture \<Rightarrow> string \<Rightarrow> string \<Rightarrow> string \<Rightarrow> string \<Rightarrow> world \<Rightarrow> frame" where
  "run_capture e proxy_port capture archive_path archive_format json_summary_path attachments_path w =
     (let scoop_args = scoop_args_of (app_config e) capture archive_path archive_format
                         json_summary_path attachments_path proxy_port;
          w = emit (Popen scoop_args) w
      in (case communicate_timeout (app_config e) of
            None \<Rightarrow> (Some OtherError, Some capture, True, w)
          | Some timeout \<Rightarrow>
              (let process = popen e;
                   w = w\<lparr>files := writes process @ files w\<rparr>
               in if interrupted process then (Some Interrupt, Some capture, True, w)
                  else if duration process > timeout then (Some TimeoutExpired, Some capture, True, w)
                  else
                    (let scoop_exit_code = poll process;
                         w = (case scoop_exit_code of
                                None \<Rightarrow> emit Kill (emit (Sleep 5) w)
                              | Some _ \<Rightarrow> w)
                     in (case decode (stdout process) of
                           None \<Rightarrow> (Some OtherError, Some capture, True, w)
                         | Some out \<Rightarrow>
                             (let capture = capture\<lparr>stdout_logs := Some out\<rparr>
                              in (case decode (stderr process) of
                                    None \<Rightarrow> (Some OtherError, Some capture, True, w)
                                  | Some err \<Rightarrow>
                                      (let capture = capture\<lparr>stderr_logs := Some err\<rparr>
                                       in check_capture_results capture scoop_exit_code archive_path
                                            json_summary_path attachments_path w))))))))"

subsection \<open>Claiming the job (lines 114-161)\<close>

text \<open>
  The paths of lines 121-136. The archive format is \<^verbatim>\<open>"wacz"\<close> unless
  \<^verbatim>\<open>DOWNGRADE_TO_WARC\<close> is set, and the extension follows the format.
\<close>

definition storage_path_of :: "config \<Rightarrow> capture \<Rightarrow> string" where
  "storage_path_of cfg capture = TEMPORARY_STORAGE_PATH cfg @ os_sep @ id_capture capture"

definition json_summary_path_of :: "config \<Rightarrow> capture \<Rightarrow> string" where
  "json_summary_path_of cfg capture = storage_path_of cfg capture @ os_sep @ ''archive.json''"

definition attachments_path_of :: "config \<Rightarrow> capture \<Rightarrow> string" where
  "attachments_path_of cfg capture = storage_path_of cfg capture @ os_sep @ ''attachments''"

definition archive_format_of :: "config \<Rightarrow> string" where
  "archive_format_of cfg =
     (let archive_format = ''wacz''
      in if DOWNGRADE_TO_WARC cfg then ''warc-gzipped'' else archive_format)"

definition archive_path_of :: "config \<Rightarrow> capture \<Rightarrow> string" where
  "archive_path_of cfg capture =
     (let archive_path = storage_path_of cfg capture @ os_sep @ ''archive.''
      in if archive_format_of cfg = ''wacz'' then archive_path @ ''wacz''
         else archive_path @ ''warc.gz'')"

definition claim_and_run :: "env \<Rightarrow> int \<Rightarrow> capture \<Rightarrow> world \<Rightarrow> frame" where
  "claim_and_run e proxy_port capture w =
     (let storage_path = storage_path_of (app_config e) capture;
          json_summary_path = json_summary_path_of (app_config e) capture;
          attachments_path = attachments_path_of (app_config e) capture;
          archive_format = archive_format_of (app_config e);
          archive_path = archive_path_of (app_config e) capture;
          w = w\<lparr>store := interference e (store w)\<rparr>;
          (rows, updated) = update_started (id_capture capture) (store w);
          w = emit (Update (id_capture capture)) (w\<lparr>store := updated\<rparr>)
      in (case get_capture (id_capture capture) (store w) of
            None \<Rightarrow> (Some OtherError, Some capture, False, w)
          | Some capture \<Rightarrow>
              (let (now, w) = utcnow w;
                   capture = capture\<lparr>started_timestamp := Some now\<rparr>;
                   w = save capture w
               in (case makedirs storage_path w of
                     None \<Rightarrow> (Some OtherError, Some capture, False, w)
                   | Some w \<Rightarrow>
                       (case makedirs attachments_path w of
                          None \<Rightarrow> (Some OtherError, Some capture, False, w)
                        | Some w \<Rightarrow>
                            run_capture e proxy_port capture archive_path archive_format
                              json_summary_path attachments_path w)))))"

subsection \<open>The try block, its handlers and the finally block\<close>

definition try_block :: "env \<Rightarrow> int \<Rightarrow> world \<Rightarrow> frame" where
  "try_block e proxy_port w =
     (if path_exists (files w) (DEPLOYMENT_SENTINEL_PATH (app_config e))
      then (None, None, False, w)
      else
        (case select_pending (store w) of
           [] \<Rightarrow> (None, None, False, w)
         | capture # _ \<Rightarrow>
             let w = emit (Head proxy_port) w
             in if \<not> proxy_port_is_available (requests_head e proxy_port)
                then (None, None, False, emit (Delay (proxy_port + 1)) w)
                else claim_and_run e proxy_port capture w))"

definition mark_failed :: "capture option \<Rightarrow> world \<Rightarrow> capture option \<times> world" where
  "mark_failed capture w =
     (case capture of
        None \<Rightarrow> (None, w)
      | Some c \<Rightarrow>
          let c = c\<lparr>status := Failed\<rparr>;
              (now, w) = utcnow w;
              c = c\<lparr>ended_timestamp := Some now\<rparr>
          in (Some c, save c w))"

definition handlers :: "frame \<Rightarrow> capture option \<times> world" where
  "handlers fr =
     (case fr of (raised, capture, process, w) \<Rightarrow>
        (case raised of
           None \<Rightarrow> (capture, w)
         | Some TimeoutExpired \<Rightarrow>
             let (capture, w) = mark_failed capture w
             in (capture, if process then emit Kill w else w)
         | Some OtherError \<Rightarrow> mark_failed capture w
         | Some Interrupt \<Rightarrow> mark_failed capture w))"

definition finally_block :: "env \<Rightarrow> int \<Rightarrow> capture option \<times> world \<Rightarrow> world" where
  "finally_block e proxy_port cw =
     (case cw of (capture, w) \<Rightarrow>
        let w = (case capture of
                   None \<Rightarrow> w
                 | Some c \<Rightarrow>
                     (case callback_url c of
                        None \<Rightarrow> w
                      | Some u \<Rightarrow>
                          if u = [] then w
                          else let w = emit (Post u c 10) w
                               in if requests_post e u then w else w))
        in emit (Delay proxy_port) w)"

text \<open>The task: \<open>None\<close> is Python's \<^verbatim>\<open>None\<close> passed as \<^verbatim>\<open>proxy_port\<close>.\<close>

definition start_capture_process :: "env \<Rightarrow> int option \<Rightarrow> world \<Rightarrow> world" where
  "start_capture_process e proxy_port w =
     (case proxy_port of
        None \<Rightarrow> w
      | Some p \<Rightarrow>
          if p = 0 \<or> p > 65535 then w
          else finally_block e p (handlers (try_block e p w)))"

subsection \<open>Reading frames and traces\<close>

definition raised_of :: "frame \<Rightarrow> exn option" where
  "raised_of fr = fst fr"

definition capture_of :: "frame \<Rightarrow> capture option" where
  "capture_of fr = fst (snd fr)"

definition process_of :: "frame \<Rightarrow> bool" where
  "process_of fr = fst (snd (snd fr))"

definition world_of :: "frame \<Rightarrow> world" where
  "world_of fr = snd (snd (snd fr))"

text \<open>The ports of the continuation tasks enqueued, in order.\<close>

fun delays :: "event list \<Rightarrow> int list" where
  "delays [] = []"
| "delays (Delay p # evs) = p # delays evs"
| "delays (_ # evs) = delays evs"

text \<open>The signals and waits of the cycle, the attachment lines printed, the webhook
  deliveries attempted (URL, payload, timeout in seconds) and the engine invocations.\<close>

fun signals :: "event list \<Rightarrow> event list" where
  "signals [] = []"
| "signals (Kill # evs) = Kill # signals evs"
| "signals (Sleep n # evs) = Sleep n # signals evs"
| "signals (_ # evs) = signals evs"

fun not_found :: "event list \<Rightarrow> string list" where
  "not_found [] = []"
| "not_found (NotFound p # evs) = p # not_found evs"
| "not_found (_ # evs) = not_found evs"

fun posts :: "event list \<Rightarrow> (string \<times> capture \<times> nat) list" where
  "posts [] = []"
| "posts (Post u c t # evs) = (u, c, t) # posts evs"
| "posts (_ # evs) = posts evs"

fun popens :: "event list \<Rightarrow> arg list list" where
  "popens [] = []"
| "popens (Popen args # evs) = args # popens evs"
| "popens (_ # evs) = popens evs"

subsection \<open>The verification condition, in the words of the specification\<close>

text \<open>
  The filenames obtained by flattening the attachments map of the summary found at a
  path: each kind gives its single filename or every filename of its list. A summary
  that is absent, unreadable or without an attachments map gives none.
\<close>

definition expected_filenames :: "filesystem \<Rightarrow> string \<Rightarrow> string list" where
  "expected_filenames fs json_summary_path =
     (case json_load fs json_summary_path of
        None \<Rightarrow> []
      | Some json_summary \<Rightarrow>
          (case attachments json_summary of
             None \<Rightarrow> []
           | Some atts \<Rightarrow>
               concat (map (\<lambda>v. case v of Single f \<Rightarrow> [f] | Many fs \<Rightarrow> fs) (map snd atts))))"

text \<open>
  Exit code 0, archive present, summary present, and every expected filename present:
  the path made of the attachments directory, the separator and the filename exists.
\<close>

definition verified :: "config \<Rightarrow> int option \<Rightarrow> capture \<Rightarrow> filesystem \<Rightarrow> bool" where
  "verified cfg exit_code c fs =
     (exit_code = Some 0
      \<and> path_exists fs (archive_path_of cfg c)
      \<and> path_exists fs (json_summary_path_of cfg c)
      \<and> (\<forall>f \<in> set (expected_filenames fs (json_summary_path_of cfg c)).
            path_exists fs (attachments_path_of cfg c @ os_sep @ f)))"

definition missing_attachments :: "config \<Rightarrow> capture \<Rightarrow> filesystem \<Rightarrow> string list" where
  "missing_attachments cfg c fs =
     filter (\<lambda>filepath. \<not> path_exists fs filepath)
       (map (\<lambda>filename. attachments_path_of cfg c @ os_sep @ filename)
            (expected_filenames fs (json_summary_path_of cfg c)))"

text \<open>
  What else the verdict depends on. The exit code the cycle reads at line 198 is what
  \<^verbatim>\<open>poll\<close> answers once \<^verbatim>\<open>communicate\<close> has returned; there is none when the wait
  raised (timeout, interruption, unusable bound). Both captured streams must decode, and
  the summary must load as a document with an attachments map.
\<close>

definition scoop_exit_code :: "env \<Rightarrow> int option" where
  "scoop_exit_code e =
     (case communicate_timeout (app_config e) of
        None \<Rightarrow> None
      | Some timeout \<Rightarrow>
          if interrupted (popen e) \<or> timeout < duration (popen e) then None
          else poll (popen e))"

definition streams_decode :: "env \<Rightarrow> bool" where
  "streams_decode e = (decode (stdout (popen e)) \<noteq> None \<and> decode (stderr (popen e)) \<noteq> None)"

definition summary_readable :: "filesystem \<Rightarrow> string \<Rightarrow> bool" where
  "summary_readable fs json_summary_path =
     (case json_load fs json_summary_path of
        None \<Rightarrow> False
      | Some json_summary \<Rightarrow> attachments json_summary \<noteq> None)"

subsection \<open>A concrete deployment\<close>

text \<open>
  One pending job with a callback URL, a configuration with a 60 s capture timeout and a
  5 s fuse, an engine run that exits with code 0 after 10 s and leaves the archive, the
  summary and the three attachments the summary lists, a free port, no other worker.
\<close>

definition job1 :: capture where
  "job1 = \<lparr>id_capture = ''j1'', url = ''https://example.com'',
      callback_url = Some ''https://hook.example/cb'',
      status = Pending, created_timestamp = 1, started_timestamp = None, ended_timestamp = None,
      stdout_logs = None, stderr_logs = None, summary = None\<rparr>"

definition cfg0 :: config where
  "cfg0 = \<lparr>SCOOP_CLI_OPTIONS = [(''--capture-timeout'', Number 60000)],
     DEPLOYMENT_SENTINEL_PATH = ''/sentinel'', TEMPORARY_STORAGE_PATH = ''/tmp'',
     DOWNGRADE_TO_WARC = False, SCOOP_TIMEOUT_FUSE = 5\<rparr>"

definition summary0 :: json_summary where
  "summary0 = JsonSummary (Some [(''screenshot'', Single ''shot.png''),
                                 (''certificates'', Many [''a.pem'', ''b.pem''])])"

definition good_run :: engine_run where
  "good_run = \<lparr>duration = 10, interrupted = False, poll = Some 0,
     stdout = Utf8 ''out'', stderr = Utf8 ''err'',
     writes = [(''/tmp/j1/archive.wacz'', Blob),
               (''/tmp/j1/archive.json'', Json summary0),
               (''/tmp/j1/attachments/shot.png'', Blob),
               (''/tmp/j1/attachments/a.pem'', Blob),
               (''/tmp/j1/attachments/b.pem'', Blob)]\<rparr>"

definition env0 :: env where
  "env0 = \<lparr>app_config = cfg0, requests_head = (\<lambda>_. OtherException), interference = (\<lambda>s. s),
     popen = good_run, requests_post = (\<lambda>_. True)\<rparr>"

definition world0 :: world where
  "world0 = \<lparr>store = [job1], files = [], clock = 100, trace = []\<rparr>"

text \<open>
  Variations: an engine run that outlives the 65 s bound after writing some output; an
  engine run that exits with code 0 but exports none of the attachments it lists; a
  webhook endpoint that is down; another worker that claims the job between this worker's
  select and its conditional update.
\<close>

definition slow_run :: engine_run where
  "slow_run = good_run\<lparr>duration := 100, stdout := Utf8 ''partial'', stderr := Utf8 ''warn''\<rparr>"

definition bare_run :: engine_run where
  "bare_run = good_run\<lparr>writes := [(''/tmp/j1/archive.wacz'', Blob),
                                  (''/tmp/j1/archive.json'', Json summary0)]\<rparr>"

definition env_slow :: env where
  "env_slow = env0\<lparr>popen := slow_run\<rparr>"


definition env_race :: env where
  "env_race = env0\<lparr>interference :=
                 map (\<lambda>c. c\<lparr>status := Started, started_timestamp := Some 50\<rparr>)\<rparr>"

text \<open>The job record and the engine invocation these runs end with.\<close>

definition job1_failed :: capture where
  "job1_failed = job1\<lparr>status := Failed, started_timestamp := Some 100,
      ended_timestamp := Some 101\<rparr>"

definition job1_done :: capture where
  "job1_done = job1\<lparr>status := Success, started_timestamp := Some 100,
      ended_timestamp := Some 101, stdout_logs := Some ''out'', stderr_logs := Some ''err'',
      summary := Some summary0\<rparr>"

definition scoop_args0 :: "arg list" where
  "scoop_args0 =
     [Lit ''npx'', Lit ''scoop'', Lit ''https://example.com'',
      Lit ''--output'', Lit ''/tmp/j1/archive.wacz'', Lit ''--format'', Lit ''wacz'',
      Lit ''--json-summary-output'', Lit ''/tmp/j1/archive.json'',
      Lit ''--export-attachments-output'', Lit ''/tmp/j1/attachments'',
      Lit ''--proxy-port'', Num 9000, Lit ''--capture-timeout'', Num 60000]"

text \<open>
  More variations: a port held by another capture; an engine run whose standard error is
  not valid UTF-8; an engine run whose summary lists a path that leaves the attachments
  directory and an empty filename.
\<close>

definition env_busy :: env where
  "env_busy = env0\<lparr>requests_head := (\<lambda>_. ReadTimeout)\<rparr>"

definition garbled_run :: engine_run where
  "garbled_run = good_run\<lparr>stderr := Invalid\<rparr>"

definition env_garbled :: env where
  "env_garbled = env0\<lparr>popen := garbled_run\<rparr>"

definition job1_garbled :: capture where
  "job1_garbled = job1\<lparr>status := Failed, started_timestamp := Some 100,
      ended_timestamp := Some 101, stdout_logs := Some ''out''\<rparr>"

definition summary_outside :: json_summary where
  "summary_outside = JsonSummary (Some [(''screenshot'', Single ''../archive.json''),
                                        (''certificates'', Many [[]])])"

definition outside_run :: engine_run where
  "outside_run = good_run\<lparr>writes := [(''/tmp/j1/archive.wacz'', Blob),
                                     (''/tmp/j1/archive.json'', Json summary_outside)]\<rparr>"

section \<open>Properties\<close>

subsection \<open>Auxiliary facts\<close>

lemmas fixture_defs = job1_def cfg0_def summary0_def good_run_def env0_def world0_def

lemma world_of_frame [simp]: "world_of (x, c, b, w) = w"
  by (simp add: world_of_def)

lemma delays_append [simp]: "delays (xs @ ys) = delays xs @ delays ys"
  by (induction xs rule: delays.induct) auto

lemma delays_NotFound [simp]: "delays (map NotFound ps) = []"
  by (induction ps) auto

lemma check_filename_step:
  "check_filename ap (b, w) f =
     (if path_exists (files w) (ap @ os_sep @ f) then (b, w)
      else (False, w\<lparr>trace := trace w @ [NotFound (ap @ os_sep @ f)]\<rparr>))"
  by (simp add: check_filename_def emit_def Let_def)

text \<open>
  The loop of lines 251-255 visits every filename: the flag ends \<open>True\<close> only if it was
  and every file exists, and one line is printed for each missing file.
\<close>

lemma check_filenames_eq:
  "check_filenames ap fs (b, w) =
     (b \<and> (\<forall>f \<in> set fs. path_exists (files w) (ap @ os_sep @ f)),
      w\<lparr>trace := trace w @ map NotFound
         (filter (\<lambda>p. \<not> path_exists (files w) p) (map (\<lambda>f. ap @ os_sep @ f) fs))\<rparr>)"
  unfolding check_filenames_def
proof (induction fs arbitrary: b w)
  case Nil
  then show ?case by simp
next
  case (Cons f fs)
  show ?case
    by (simp add: check_filename_step Cons.IH)
qed

lemma delays_check_capture_results:
  "delays (trace (world_of (check_capture_results c x ap jp atp w))) = delays (trace w)"
  by (auto simp: check_capture_results_def report_def save_def utcnow_def
        check_filenames_eq Let_def split: option.splits prod.splits if_splits)

lemma delays_run_capture:
  "delays (trace (world_of (run_capture e p c ap af jp atp w))) = delays (trace w)"
  by (auto simp: run_capture_def delays_check_capture_results emit_def Let_def
        split: option.splits)

lemma makedirs_fields:
  "makedirs p w = Some w' \<Longrightarrow> store w' = store w \<and> trace w' = trace w \<and> clock w' = clock w"
  by (auto simp: makedirs_def split: if_splits option.splits)

lemma delays_claim_and_run:
  "delays (trace (world_of (claim_and_run e p c w))) = delays (trace w)"
  by (auto simp: claim_and_run_def delays_run_capture emit_def Let_def save_def
        utcnow_def split: option.splits prod.splits if_splits dest!: makedirs_fields)

lemma delays_mark_failed:
  "delays (trace (snd (mark_failed c w))) = delays (trace w)"
  by (auto simp: mark_failed_def save_def utcnow_def Let_def split: option.splits)

lemma delays_handlers:
  "delays (trace (snd (handlers fr))) = delays (trace (world_of fr))"
  by (cases fr) (auto simp: handlers_def world_of_def delays_mark_failed emit_def Let_def
        split: option.splits exn.splits prod.splits
        dest: arg_cong [where f = "\<lambda>x. delays (trace (snd x))"])

lemma delays_finally:
  "delays (trace (finally_block e p cw)) = delays (trace (snd cw)) @ [p]"
  by (cases cw) (auto simp: finally_block_def emit_def Let_def split: option.splits)

lemma last_finally:
  "last (trace (finally_block e p cw)) = Delay p"
  by (cases cw) (auto simp: finally_block_def emit_def Let_def split: option.splits)

subsection \<open>The port guard\<close>

text \<open>
  C10: called with a \<^verbatim>\<open>proxy_port\<close> that is \<^verbatim>\<open>None\<close>, 0 or above 65535, the task returns
  before the \<^verbatim>\<open>try\<close> block: the job table, the file system and the trace are as they
  were, so no job is read or written, no engine runs and no continuation is enqueued.
\<close>

theorem invalid_port_returns_unchanged:
  "proxy_port = None \<or> proxy_port = Some 0 \<or> (\<exists>p. proxy_port = Some p \<and> p > 65535)
   \<Longrightarrow> start_capture_process e proxy_port w = w"
  by (auto simp: start_capture_process_def)

theorem invalid_port_returns_unchanged_witness:
  "start_capture_process env0 None world0 = world0
   \<and> start_capture_process env0 (Some 0) world0 = world0
   \<and> start_capture_process env0 (Some 65536) world0 = world0"
  using invalid_port_returns_unchanged [of None env0 world0]
        invalid_port_returns_unchanged [of "Some 0" env0 world0]
        invalid_port_returns_unchanged [of "Some 65536" env0 world0]
  by simp

subsection \<open>The port probe\<close>

text \<open>
  C3, as the spec states it, classifies a port that answers the probe with an HTTP
  response as free. The code sets \<^verbatim>\<open>proxy_port_is_available = False\<close> right after
  \<^verbatim>\<open>requests.head\<close> returns: a port that answers with status 200 is busy.
\<close>

theorem probe_response_is_busy:
  "\<not> proxy_port_is_available (Response 200)"
  by (simp add: proxy_port_is_available_def)

text \<open>
  C3, amended: a read timeout is busy, any HTTP response is busy, and only a probe that
  fails in another way (connection refused, unreachable, DNS) is free.
\<close>

theorem probe_classification:
  "\<not> proxy_port_is_available ReadTimeout
   \<and> (\<forall>code. \<not> proxy_port_is_available (Response code))
   \<and> proxy_port_is_available OtherException"
  by (simp add: proxy_port_is_available_def)

subsection \<open>Scheduling\<close>

text \<open>
  The busy-port cycle: with a valid port, no sentinel, a pending job and a port classified
  busy, the cycle probes the port and ends without a conditional update and without an
  engine; the job table and the file system are unchanged. It enqueues two continuations:
  its own on \<open>port + 1\<close>, then the one of the \<^verbatim>\<open>finally\<close> block on the original port.
\<close>

lemma busy_port_cycle:
  assumes "p \<noteq> 0" and "p \<le> 65535"
    and "\<not> path_exists (files w) (DEPLOYMENT_SENTINEL_PATH (app_config e))"
    and "select_pending (store w) \<noteq> []"
    and "\<not> proxy_port_is_available (requests_head e p)"
  shows "start_capture_process e (Some p) w
           = w\<lparr>trace := trace w @ [Head p, Delay (p + 1), Delay p]\<rparr>"
  using assms
  by (simp add: start_capture_process_def try_block_def handlers_def finally_block_def
        emit_def Let_def split: list.splits)

text \<open>
  C6 on the code: a pending job and port 9000 held by another capture (the probe times
  out while reading). The cycle claims nothing and changes no job record, and it enqueues
  the cycle on port 9001; but the \<^verbatim>\<open>return\<close> of line 106 is inside the \<^verbatim>\<open>try\<close> block, so
  the \<^verbatim>\<open>finally\<close> block enqueues one more cycle on port 9000. The next cycle is not on
  \<open>port + 1\<close> alone: both ports continue.
\<close>

theorem busy_port_enqueues_two_continuations:
  "start_capture_process env_busy (Some 9000) world0
     = world0\<lparr>trace := [Head 9000, Delay 9001, Delay 9000]\<rparr>"
proof -
  have h3: "\<not> path_exists (files world0) (DEPLOYMENT_SENTINEL_PATH (app_config env_busy))"
    by (simp add: fixture_defs env_busy_def path_exists_def lookup_path_def)
  have h4: "select_pending (store world0) \<noteq> []"
    by (simp add: fixture_defs select_pending_def)
  have h5: "\<not> proxy_port_is_available (requests_head env_busy 9000)"
    by (simp add: proxy_port_is_available_def env_busy_def)
  from busy_port_cycle [of 9000 world0 env_busy, OF _ _ h3 h4 h5]
  show ?thesis by (simp add: world0_def)
qed

text \<open>
  C9: once the port guard is passed, the \<^verbatim>\<open>finally\<close> block ends the cycle by enqueueing
  one continuation on the same port, on every path: it is the last event of the cycle, and
  the only continuation of the cycle except on the busy-port path, where the cycle has
  already enqueued one on \<open>port + 1\<close>. The sentinel path and the no-pending-work path are
  the instances where the condition below is false.
\<close>

theorem finally_enqueues_same_port:
  assumes "p \<noteq> 0" and "p \<le> 65535"
  shows "delays (trace (start_capture_process e (Some p) w)) =
           delays (trace w) @
           (if \<not> path_exists (files w) (DEPLOYMENT_SENTINEL_PATH (app_config e)) \<and>
               select_pending (store w) \<noteq> [] \<and>
               \<not> proxy_port_is_available (requests_head e p)
            then [p + 1] else []) @ [p]
         \<and> last (trace (start_capture_process e (Some p) w)) = Delay p"
proof -
  have "delays (trace (world_of (try_block e p w))) = delays (trace w) @
           (if \<not> path_exists (files w) (DEPLOYMENT_SENTINEL_PATH (app_config e)) \<and>
               select_pending (store w) \<noteq> [] \<and>
               \<not> proxy_port_is_available (requests_head e p)
            then [p + 1] else [])"
    by (simp add: try_block_def emit_def Let_def delays_claim_and_run split: list.splits)
  then show ?thesis using assms
    by (simp add: start_capture_process_def delays_finally delays_handlers last_finally)
qed

theorem finally_enqueues_same_port_witness:
  "delays (trace (start_capture_process env0 (Some 9000) (world0\<lparr>store := []\<rparr>))) = [9000]
   \<and> last (trace (start_capture_process env0 (Some 9000) (world0\<lparr>store := []\<rparr>))) = Delay 9000"
  using finally_enqueues_same_port [of 9000 env0 "world0\<lparr>store := []\<rparr>"]
  by (simp add: fixture_defs select_pending_def path_exists_def lookup_path_def)

text \<open>
  C2 on the code: with the sentinel on disk the cycle returns from inside the \<^verbatim>\<open>try\<close>
  block, before any job is selected or claimed, but the \<^verbatim>\<open>finally\<close> block still runs
  and enqueues the next cycle on the same port.
\<close>

theorem sentinel_cycle_still_reschedules:
  "start_capture_process env0 (Some 9000) (world0\<lparr>files := [(''/sentinel'', Blob)]\<rparr>)
     = world0\<lparr>files := [(''/sentinel'', Blob)], trace := [Delay 9000]\<rparr>"
  by (simp add: start_capture_process_def try_block_def handlers_def finally_block_def
        emit_def fixture_defs path_exists_def lookup_path_def is_dir_def join_def os_sep_def)

subsection \<open>Further auxiliary facts\<close>

lemmas frame_defs = raised_of_def capture_of_def process_of_def world_of_def

lemma signals_append [simp]: "signals (xs @ ys) = signals xs @ signals ys"
  by (induction xs rule: signals.induct) auto

lemma not_found_append [simp]: "not_found (xs @ ys) = not_found xs @ not_found ys"
  by (induction xs rule: not_found.induct) auto

lemma posts_append [simp]: "posts (xs @ ys) = posts xs @ posts ys"
  by (induction xs rule: posts.induct) auto

lemma not_found_NotFound [simp]: "not_found (map NotFound ps) = ps"
  by (induction ps) auto

lemma signals_NotFound [simp]: "signals (map NotFound ps) = []"
  by (induction ps) auto

lemma posts_NotFound [simp]: "posts (map NotFound ps) = []"
  by (induction ps) auto

lemma collect_filenames_eq:
  "collect_filenames vs = concat (map (\<lambda>v. case v of Single f \<Rightarrow> [f] | Many fs \<Rightarrow> fs) vs)"
proof -
  have "foldl (\<lambda>acc v. case v of Many fs \<Rightarrow> acc @ fs | Single f \<Rightarrow> acc @ [f]) acc vs
        = acc @ concat (map (\<lambda>v. case v of Single f \<Rightarrow> [f] | Many fs \<Rightarrow> fs) vs)" for acc
    by (induction vs arbitrary: acc) (auto split: attachment_entry.splits)
  from this [of "[]"] show ?thesis by (simp add: collect_filenames_def)
qed

lemma get_capture_id: "get_capture i s = Some c \<Longrightarrow> id_capture c = i"
  by (auto simp: get_capture_def find_Some_iff)

lemma get_capture_replace:
  "get_capture (id_capture c) s = Some x \<Longrightarrow>
   get_capture (id_capture c) (map (\<lambda>r. if id_capture r = id_capture c then c else r) s) = Some c"
  unfolding get_capture_def by (induction s) (auto split: if_splits)

lemma get_capture_save:
  "get_capture (id_capture c) (store w) = Some x \<Longrightarrow>
   get_capture (id_capture c) (store (save c w)) = Some c"
  by (simp add: save_def get_capture_replace)

lemma paths_by_id:
  assumes "id_capture a = id_capture b"
  shows "storage_path_of cfg a = storage_path_of cfg b"
    and "json_summary_path_of cfg a = json_summary_path_of cfg b"
    and "attachments_path_of cfg a = attachments_path_of cfg b"
    and "archive_path_of cfg a = archive_path_of cfg b"
  using assms
  by (simp_all add: storage_path_of_def json_summary_path_of_def attachments_path_of_def
        archive_path_of_def)


lemma claim_and_run_spawned:
  assumes "process_of (claim_and_run e p c0 w)"
  shows "\<exists>c w0. claim_and_run e p c0 w =
            run_capture e p c (archive_path_of (app_config e) c) (archive_format_of (app_config e))
              (json_summary_path_of (app_config e) c) (attachments_path_of (app_config e) c) w0
          \<and> id_capture c = id_capture c0
          \<and> get_capture (id_capture c) (store w0) = Some c
          \<and> trace w0 = trace w @ [Update (id_capture c)]"
proof -
  let ?s = "snd (update_started (id_capture c0) (interference e (store w)))"
  obtain c1 where c1: "get_capture (id_capture c0) ?s = Some c1"
    using assms
    by (cases "get_capture (id_capture c0) ?s")
       (auto simp: claim_and_run_def process_of_def emit_def Let_def case_prod_beta)
  have id1: "id_capture c1 = id_capture c0" using c1 by (rule get_capture_id)
  let ?c = "c1\<lparr>started_timestamp := Some (clock w)\<rparr>"
  let ?w1 = "save ?c (w\<lparr>store := ?s, trace := trace w @ [Update (id_capture c0)], clock := Suc (clock w)\<rparr>)"
  have g: "get_capture (id_capture ?c) (store ?w1) = Some ?c"
    by (rule get_capture_save [where x = c1]) (simp add: id1 c1)
  obtain w2 where w2: "makedirs (storage_path_of (app_config e) c0) ?w1 = Some w2"
    using assms c1
    by (cases "makedirs (storage_path_of (app_config e) c0) ?w1")
       (auto simp: claim_and_run_def process_of_def emit_def utcnow_def Let_def case_prod_beta)
  obtain w3 where w3: "makedirs (attachments_path_of (app_config e) c0) w2 = Some w3"
    using assms c1 w2
    by (cases "makedirs (attachments_path_of (app_config e) c0) w2")
       (auto simp: claim_and_run_def process_of_def emit_def utcnow_def Let_def case_prod_beta)
  have s3: "store w3 = store ?w1" and t3: "trace w3 = trace ?w1"
    using makedirs_fields [OF w2] makedirs_fields [OF w3] by simp_all
  have eq: "claim_and_run e p c0 w =
            run_capture e p ?c (archive_path_of (app_config e) c0) (archive_format_of (app_config e))
              (json_summary_path_of (app_config e) c0) (attachments_path_of (app_config e) c0) w3"
    using c1 w2 w3
    by (simp add: claim_and_run_def emit_def utcnow_def Let_def case_prod_beta)
  have idc: "id_capture ?c = id_capture c0" by (simp add: id1)
  show ?thesis
    apply (rule exI [of _ ?c], rule exI [of _ w3])
    using eq g s3 t3 paths_by_id [OF idc, of "app_config e"]
    by (simp add: id1 save_def)
qed

lemma try_block_spawned:
  assumes "process_of (try_block e p w)"
  shows "\<exists>c w0. try_block e p w =
            run_capture e p c (archive_path_of (app_config e) c) (archive_format_of (app_config e))
              (json_summary_path_of (app_config e) c) (attachments_path_of (app_config e) c) w0
          \<and> get_capture (id_capture c) (store w0) = Some c
          \<and> trace w0 = trace w @ [Head p, Update (id_capture c)]"
proof -
  from assms obtain c0 rest where
    tb: "try_block e p w = claim_and_run e p c0 (emit (Head p) w)"
    by (auto simp: try_block_def process_of_def Let_def split: if_splits list.splits)
  with assms have "process_of (claim_and_run e p c0 (emit (Head p) w))" by simp
  from claim_and_run_spawned [OF this] tb show ?thesis
    by (auto simp: emit_def)
qed

lemma save_fields [simp]:
  "files (save c w) = files w" "trace (save c w) = trace w" "clock (save c w) = clock w"
  by (simp_all add: save_def)

lemma mark_failed_Some:
  "mark_failed (Some c) w =
     (Some (c\<lparr>status := Failed, ended_timestamp := Some (clock w)\<rparr>),
      save (c\<lparr>status := Failed, ended_timestamp := Some (clock w)\<rparr>) (w\<lparr>clock := Suc (clock w)\<rparr>))"
  by (simp add: mark_failed_def utcnow_def Let_def)

lemma handlers_persist:
  assumes "capture_of fr = Some c"
    and "get_capture (id_capture c) (store (world_of fr)) = Some x"
    and "raised_of fr = None \<Longrightarrow> x = c"
  shows "\<exists>c'. fst (handlers fr) = Some c'
           \<and> get_capture (id_capture c') (store (snd (handlers fr))) = Some c'
           \<and> id_capture c' = id_capture c
           \<and> callback_url c' = callback_url c
           \<and> stdout_logs c' = stdout_logs c \<and> stderr_logs c' = stderr_logs c
           \<and> (raised_of fr = None \<longrightarrow> c' = c)
           \<and> (raised_of fr \<noteq> None \<longrightarrow> status c' = Failed \<and> ended_timestamp c' \<noteq> None)"
proof (cases fr)
  case (fields r co b w)
  with assms have co: "co = Some c" and g: "get_capture (id_capture c) (store w) = Some x"
    by (simp_all add: capture_of_def world_of_def)
  let ?c = "c\<lparr>status := Failed, ended_timestamp := Some (clock w)\<rparr>"
  have "get_capture (id_capture ?c) (store (save ?c (w\<lparr>clock := Suc (clock w)\<rparr>))) = Some ?c"
    by (rule get_capture_save [where x = x]) (simp add: g)
  then have m: "get_capture (id_capture c) (store (save ?c (w\<lparr>clock := Suc (clock w)\<rparr>))) = Some ?c"
    by simp
  show ?thesis
  proof (cases r)
    case None
    with assms fields co g show ?thesis
      by (simp add: handlers_def raised_of_def)
  next
    case (Some ex)
    with fields co m show ?thesis
      by (cases ex) (simp_all add: handlers_def raised_of_def mark_failed_Some emit_def)
  qed
qed

lemma signals_handlers:
  "signals (trace (snd (handlers fr))) =
     signals (trace (world_of fr)) @
     (if raised_of fr = Some TimeoutExpired \<and> process_of fr then [Kill] else [])"
proof (cases fr)
  case (fields r co b w)
  show ?thesis
  proof (cases co)
    case None
    with fields show ?thesis
      by (auto simp: handlers_def frame_defs mark_failed_def emit_def split: option.splits exn.splits)
  next
    case (Some c)
    with fields show ?thesis
      by (auto simp: handlers_def frame_defs mark_failed_Some emit_def split: option.splits exn.splits)
  qed
qed

lemma finally_fields [simp]:
  "store (finally_block e p cw) = store (snd cw)"
  "files (finally_block e p cw) = files (snd cw)"
  "signals (trace (finally_block e p cw)) = signals (trace (snd cw))"
  "not_found (trace (finally_block e p cw)) = not_found (trace (snd cw))"
  by (cases cw; auto simp: finally_block_def emit_def Let_def split: option.splits)+

lemma run_capture_timeout:
  assumes "communicate_timeout (app_config e) = Some t"
    and "\<not> interrupted (popen e)" and "t < duration (popen e)"
  shows "run_capture e p c ap af jp atp w =
           (Some TimeoutExpired, Some c, True,
            w\<lparr>trace := trace w @ [Popen (scoop_args_of (app_config e) c ap af jp atp p)],
              files := writes (popen e) @ files w\<rparr>)"
  using assms by (simp add: run_capture_def emit_def Let_def)

lemmas cycle_defs = start_capture_process_def try_block_def claim_and_run_def run_capture_def
  check_capture_results_def report_def check_filenames_def check_filename_def collect_filenames_def
  handlers_def finally_block_def
  select_pending_def path_exists_def lookup_path_def is_dir_def join_def json_load_def
  proxy_port_is_available_def decode_def
  update_started_def get_capture_def utcnow_def save_def makedirs_def emit_def mark_failed_def
  communicate_timeout_def storage_path_of_def json_summary_path_of_def attachments_path_of_def
  archive_path_of_def archive_format_of_def os_sep_def scoop_args_of_def str_value_def Let_def

lemma get_capture_saved:
  "get_capture i (store w) \<noteq> None \<Longrightarrow> id_capture C = i \<Longrightarrow>
   get_capture i (store (save C w)) = Some C"
  using get_capture_save [of C w] by auto

lemma store_clock [simp]: "store (w\<lparr>clock := n\<rparr>) = store w"
  by simp

lemma check_capture_results_logs:
  assumes "get_capture (id_capture c) (store w) \<noteq> None"
  shows "\<exists>c'. capture_of (check_capture_results c ex ap jp atp w) = Some c'
           \<and> id_capture c' = id_capture c
           \<and> callback_url c' = callback_url c
           \<and> stdout_logs c' = stdout_logs c \<and> stderr_logs c' = stderr_logs c
           \<and> (\<exists>y. get_capture (id_capture c) (store (world_of (check_capture_results c ex ap jp atp w))) = Some y
                  \<and> (raised_of (check_capture_results c ex ap jp atp w) = None \<longrightarrow> y = c'))"
  using assms
  by (auto simp: check_capture_results_def report_def utcnow_def check_filenames_eq frame_defs
        get_capture_saved Let_def split: option.splits)

lemma run_capture_completed:
  assumes "communicate_timeout (app_config e) = Some t"
    and "\<not> interrupted (popen e)" and "duration (popen e) \<le> t"
    and "decode (stdout (popen e)) = Some out" and "decode (stderr (popen e)) = Some err"
  shows "run_capture e p c ap af jp atp w =
           check_capture_results (c\<lparr>stdout_logs := Some out, stderr_logs := Some err\<rparr>)
             (poll (popen e)) ap jp atp
             (w\<lparr>files := writes (popen e) @ files w,
                trace := trace w @ [Popen (scoop_args_of (app_config e) c ap af jp atp p)]
                    @ (case poll (popen e) of None \<Rightarrow> [Sleep 5, Kill] | Some _ \<Rightarrow> [])\<rparr>)"
proof -
  have swap: "w\<lparr>trace := b, files := a\<rparr> = w\<lparr>files := a, trace := b\<rparr>" for a b
    by simp
  show ?thesis
    using assms
    by (cases "poll (popen e)") (simp_all add: run_capture_def emit_def Let_def swap)
qed

lemma check_capture_results_verdict:
  assumes "get_capture (id_capture c) (store w) \<noteq> None"
    and "raised_of (check_capture_results c ex ap jp atp w) = None"
  shows "\<exists>c'. capture_of (check_capture_results c ex ap jp atp w) = Some c'
           \<and> id_capture c' = id_capture c
           \<and> get_capture (id_capture c) (store (world_of (check_capture_results c ex ap jp atp w))) = Some c'
           \<and> (status c' = Success \<or> status c' = Failed)
           \<and> (status c' = Success \<longleftrightarrow>
                 ex = Some 0 \<and> path_exists (files w) ap \<and> path_exists (files w) jp
                 \<and> (\<forall>f \<in> set (expected_filenames (files w) jp). path_exists (files w) (atp @ os_sep @ f)))
           \<and> files (world_of (check_capture_results c ex ap jp atp w)) = files w
           \<and> not_found (trace (world_of (check_capture_results c ex ap jp atp w))) =
                 not_found (trace w) @
                 (if ex = Some 0 \<and> path_exists (files w) ap \<and> path_exists (files w) jp
                  then filter (\<lambda>q. \<not> path_exists (files w) q)
                         (map (\<lambda>f. atp @ os_sep @ f) (expected_filenames (files w) jp))
                  else [])"
proof (cases "ex = Some 0 \<and> path_exists (files w) ap \<and> path_exists (files w) jp")
  case False
  with assms(1) show ?thesis
    by (auto simp: check_capture_results_def report_def utcnow_def frame_defs
          get_capture_saved Let_def)
next
  case True
  with assms(2) obtain j atts where j: "json_load (files w) jp = Some j" "attachments j = Some atts"
    by (auto simp: check_capture_results_def utcnow_def frame_defs Let_def split: option.splits)
  then have ef: "expected_filenames (files w) jp = collect_filenames (map snd atts)"
    by (simp add: expected_filenames_def collect_filenames_eq)
  from True j assms(1) show ?thesis
    by (simp add: check_capture_results_def report_def utcnow_def frame_defs ef
          check_filenames_eq get_capture_saved Let_def)
qed

lemma run_capture_no_raise:
  assumes "raised_of (run_capture e p c ap af jp atp w) = None"
  shows "\<exists>t out err. communicate_timeout (app_config e) = Some t
           \<and> \<not> interrupted (popen e) \<and> duration (popen e) \<le> t
           \<and> decode (stdout (popen e)) = Some out \<and> decode (stderr (popen e)) = Some err"
  using assms
  by (auto simp: run_capture_def raised_of_def Let_def split: option.splits if_splits)













lemma check_capture_results_nonzero:
  "a \<noteq> 0 \<Longrightarrow>
   check_capture_results c (Some a) ap jp atp w =
     report (c\<lparr>status := Failed, ended_timestamp := Some (clock w)\<rparr>) False
       (w\<lparr>clock := Suc (clock w)\<rparr>)"
  by (simp add: check_capture_results_def utcnow_def Let_def)

lemma run_capture_poll:
  assumes "a \<noteq> 0"
  shows "run_capture (e\<lparr>popen := r\<lparr>poll := Some a\<rparr>\<rparr>) p c ap af jp atp w
     = (let scoop_args = scoop_args_of (app_config e) c ap af jp atp p;
            w = emit (Popen scoop_args) w
        in (case communicate_timeout (app_config e) of
              None \<Rightarrow> (Some OtherError, Some c, True, w)
            | Some timeout \<Rightarrow>
               (let w = w\<lparr>files := writes r @ files w\<rparr>
                in if interrupted r then (Some Interrupt, Some c, True, w)
                   else if duration r > timeout then (Some TimeoutExpired, Some c, True, w)
                   else (case decode (stdout r) of
                           None \<Rightarrow> (Some OtherError, Some c, True, w)
                         | Some out \<Rightarrow>
                            (case decode (stderr r) of
                               None \<Rightarrow> (Some OtherError, Some (c\<lparr>stdout_logs := Some out\<rparr>), True, w)
                             | Some err \<Rightarrow>
                                 report (c\<lparr>stdout_logs := Some out, stderr_logs := Some err,
                                           status := Failed, ended_timestamp := Some (clock w)\<rparr>) False
                                   (w\<lparr>clock := Suc (clock w)\<rparr>))))))"
  unfolding run_capture_def Let_def
  by (simp add: check_capture_results_nonzero [OF assms] cong: option.case_cong if_cong)

lemma run_capture_exit_code:
  assumes "a \<noteq> 0" and "b \<noteq> 0"
  shows "run_capture (e\<lparr>popen := r\<lparr>poll := Some a\<rparr>\<rparr>) p c ap af jp atp w
     = run_capture (e\<lparr>popen := r\<lparr>poll := Some b\<rparr>\<rparr>) p c ap af jp atp w"
  by (rule trans [OF run_capture_poll [OF assms(1)] run_capture_poll [OF assms(2), symmetric]])

lemma claim_and_run_exit_code:
  assumes "a \<noteq> 0" and "b \<noteq> 0"
  shows "claim_and_run (e\<lparr>popen := r\<lparr>poll := Some a\<rparr>\<rparr>) p c w
     = claim_and_run (e\<lparr>popen := r\<lparr>poll := Some b\<rparr>\<rparr>) p c w"
  unfolding claim_and_run_def Let_def
  by (simp add: run_capture_exit_code [OF assms] case_prod_beta cong: option.case_cong)

lemma try_block_exit_code:
  assumes "a \<noteq> 0" and "b \<noteq> 0"
  shows "try_block (e\<lparr>popen := r\<lparr>poll := Some a\<rparr>\<rparr>) p w
     = try_block (e\<lparr>popen := r\<lparr>poll := Some b\<rparr>\<rparr>) p w"
  unfolding try_block_def Let_def
  by (simp add: claim_and_run_exit_code [OF assms] cong: list.case_cong if_cong)

lemma finally_block_popen:
  "finally_block (e\<lparr>popen := r\<rparr>) p cw = finally_block e p cw"
  by (cases cw) (simp add: finally_block_def Let_def cong: option.case_cong if_cong)

lemma cycle_exit_code:
  assumes "a \<noteq> 0" and "b \<noteq> 0"
  shows "start_capture_process (e\<lparr>popen := r\<lparr>poll := Some a\<rparr>\<rparr>) pp w
     = start_capture_process (e\<lparr>popen := r\<lparr>poll := Some b\<rparr>\<rparr>) pp w"
  unfolding start_capture_process_def
  by (simp add: try_block_exit_code [OF assms] finally_block_popen cong: option.case_cong if_cong)

lemma frame_simps:
  "raised_of (x, c, b, w) = x" "capture_of (x, c, b, w) = c" "process_of (x, c, b, w) = b"
  by (simp_all add: frame_defs)

lemma run_capture_frame:
  assumes "get_capture (id_capture c) (store w) \<noteq> None"
  shows "\<exists>c' y. capture_of (run_capture e p c ap af jp atp w) = Some c'
           \<and> id_capture c' = id_capture c
           \<and> get_capture (id_capture c') (store (world_of (run_capture e p c ap af jp atp w))) = Some y
           \<and> (raised_of (run_capture e p c ap af jp atp w) = None \<longrightarrow> y = c')"
proof (cases "\<exists>t out err. communicate_timeout (app_config e) = Some t
           \<and> \<not> interrupted (popen e) \<and> duration (popen e) \<le> t
           \<and> decode (stdout (popen e)) = Some out \<and> decode (stderr (popen e)) = Some err")
  case True
  then obtain t out err where ok: "communicate_timeout (app_config e) = Some t"
      "\<not> interrupted (popen e)" "duration (popen e) \<le> t"
      "decode (stdout (popen e)) = Some out" "decode (stderr (popen e)) = Some err"
    by blast
  let ?c = "c\<lparr>stdout_logs := Some out, stderr_logs := Some err\<rparr>"
  let ?w1 = "w\<lparr>files := writes (popen e) @ files w,
                trace := trace w @ [Popen (scoop_args_of (app_config e) c ap af jp atp p)]
                    @ (case poll (popen e) of None \<Rightarrow> [Sleep 5, Kill] | Some _ \<Rightarrow> [])\<rparr>"
  have g: "get_capture (id_capture ?c) (store ?w1) \<noteq> None" using assms by simp
  have eq: "run_capture e p c ap af jp atp w
              = check_capture_results ?c (poll (popen e)) ap jp atp ?w1"
    by (rule run_capture_completed [OF ok])
  from check_capture_results_logs [OF g, of "poll (popen e)" ap jp atp, folded eq]
  obtain c' y where "capture_of (run_capture e p c ap af jp atp w) = Some c'"
      "id_capture c' = id_capture c"
      "get_capture (id_capture c) (store (world_of (run_capture e p c ap af jp atp w))) = Some y"
      "raised_of (run_capture e p c ap af jp atp w) = None \<longrightarrow> y = c'"
    by auto
  then show ?thesis by auto
next
  case False
  show ?thesis
  proof (cases "communicate_timeout (app_config e)")
    case None
    with assms show ?thesis
      by (auto simp: run_capture_def frame_simps Let_def emit_def)
  next
    case (Some t)
    show ?thesis
    proof (cases "interrupted (popen e) \<or> t < duration (popen e)")
      case True
      with Some assms show ?thesis
        by (auto simp: run_capture_def frame_simps Let_def emit_def)
    next
      case running: False
      show ?thesis
      proof (cases "decode (stdout (popen e))")
        case None
        with Some running assms show ?thesis
          by (auto simp: run_capture_def frame_simps Let_def emit_def split: option.splits)
      next
        case out: (Some out)
        with False Some running have "decode (stderr (popen e)) = None"
          by (cases "decode (stderr (popen e))") (auto simp: not_less)
        with out Some running assms show ?thesis
          by (auto simp: run_capture_def frame_simps Let_def emit_def split: option.splits)
      qed
    qed
  qed
qed

text \<open>
  A cycle that ran the engine and whose \<^verbatim>\<open>try\<close> block raised (timeout, interruption,
  undecodable output, unreadable summary, missing timeout option) leaves the job \<open>Failed\<close>.
\<close>

lemma raising_cycle_ends_failed:
  assumes "p \<noteq> 0" and "p \<le> 65535"
    and "process_of (try_block e p w)"
    and "raised_of (try_block e p w) \<noteq> None"
  shows "\<exists>c. fst (handlers (try_block e p w)) = Some c
           \<and> get_capture (id_capture c) (store (start_capture_process e (Some p) w)) = Some c
           \<and> status c = Failed"
proof -
  from try_block_spawned [OF assms(3)] obtain c w0 where
    tb: "try_block e p w =
            run_capture e p c (archive_path_of (app_config e) c) (archive_format_of (app_config e))
              (json_summary_path_of (app_config e) c) (attachments_path_of (app_config e) c) w0"
    and g: "get_capture (id_capture c) (store w0) = Some c"
    by blast
  from g have "get_capture (id_capture c) (store w0) \<noteq> None" by simp
  from run_capture_frame [OF this, folded tb] obtain c' y where
    c': "capture_of (try_block e p w) = Some c'"
        "get_capture (id_capture c') (store (world_of (try_block e p w))) = Some y"
    by (metis tb)
  from handlers_persist [OF c'(1) c'(2)] assms(4) assms(1,2)
  show ?thesis by (auto simp: start_capture_process_def)
qed

text \<open>With the sentinel on disk the cycle does one thing: it enqueues its continuation.\<close>

lemma sentinel_cycle_only_reschedules:
  assumes "p \<noteq> 0" and "p \<le> 65535"
    and "path_exists (files w) (DEPLOYMENT_SENTINEL_PATH (app_config e))"
  shows "start_capture_process e (Some p) w = w\<lparr>trace := trace w @ [Delay p]\<rparr>"
  using assms
  by (simp add: start_capture_process_def try_block_def handlers_def finally_block_def emit_def)

text \<open>The verdict of the cycle on every way the engine run can end.\<close>

lemma handlers_world:
  "files (snd (handlers fr)) = files (world_of fr)
   \<and> not_found (trace (snd (handlers fr))) = not_found (trace (world_of fr))"
proof (cases fr)
  case (fields r co b w)
  show ?thesis
  proof (cases co)
    case None
    with fields show ?thesis
      by (auto simp: handlers_def mark_failed_def emit_def split: option.splits exn.splits)
  next
    case (Some c)
    with fields show ?thesis
      by (auto simp: handlers_def mark_failed_Some emit_def split: option.splits exn.splits)
  qed
qed

lemma check_capture_results_raised:
  assumes "raised_of (check_capture_results c ex ap jp atp w) \<noteq> None"
  shows "ex = Some 0 \<and> path_exists (files w) ap \<and> path_exists (files w) jp
       \<and> \<not> summary_readable (files w) jp
       \<and> files (world_of (check_capture_results c ex ap jp atp w)) = files w
       \<and> not_found (trace (world_of (check_capture_results c ex ap jp atp w))) = not_found (trace w)"
  using assms
  by (auto simp: check_capture_results_def report_def utcnow_def frame_simps summary_readable_def
        check_filenames_eq Let_def split: option.splits if_splits)

lemma check_capture_results_readable:
  assumes "raised_of (check_capture_results c (Some 0) ap jp atp w) = None"
    and "path_exists (files w) ap" and "path_exists (files w) jp"
  shows "summary_readable (files w) jp"
  using assms
  by (auto simp: check_capture_results_def report_def utcnow_def frame_simps summary_readable_def
        check_filenames_eq Let_def split: option.splits if_splits)

lemma run_capture_aborted:
  assumes "\<not> (\<exists>t out err. communicate_timeout (app_config e) = Some t
           \<and> \<not> interrupted (popen e) \<and> duration (popen e) \<le> t
           \<and> decode (stdout (popen e)) = Some out \<and> decode (stderr (popen e)) = Some err)"
  shows "raised_of (run_capture e p c ap af jp atp w) \<noteq> None
       \<and> not_found (trace (world_of (run_capture e p c ap af jp atp w))) = not_found (trace w)
       \<and> \<not> (streams_decode e \<and> scoop_exit_code e = Some 0)"
proof (cases "communicate_timeout (app_config e)")
  case None
  then show ?thesis
    by (auto simp: run_capture_def frame_simps scoop_exit_code_def Let_def emit_def)
next
  case (Some t)
  show ?thesis
  proof (cases "interrupted (popen e) \<or> t < duration (popen e)")
    case True
    with Some show ?thesis
      by (auto simp: run_capture_def frame_simps scoop_exit_code_def Let_def emit_def)
  next
    case running: False
    show ?thesis
    proof (cases "decode (stdout (popen e))")
      case None
      with Some running show ?thesis
        by (auto simp: run_capture_def frame_simps streams_decode_def Let_def emit_def
              split: option.splits)
    next
      case out: (Some out)
      with assms Some running have "decode (stderr (popen e)) = None"
        by (cases "decode (stderr (popen e))") (auto simp: not_less)
      with out Some running show ?thesis
        by (auto simp: run_capture_def frame_simps streams_decode_def Let_def emit_def
              split: option.splits)
    qed
  qed
qed

lemma run_capture_verdict:
  assumes g: "get_capture (id_capture c) (store w) \<noteq> None"
  shows "\<exists>c'. fst (handlers (run_capture e p c ap af jp atp w)) = Some c'
     \<and> id_capture c' = id_capture c
     \<and> get_capture (id_capture c) (store (snd (handlers (run_capture e p c ap af jp atp w)))) = Some c'
     \<and> (status c' = Success \<or> status c' = Failed)
     \<and> (status c' = Success \<longleftrightarrow>
           streams_decode e \<and> scoop_exit_code e = Some 0
           \<and> path_exists (files (snd (handlers (run_capture e p c ap af jp atp w)))) ap
           \<and> path_exists (files (snd (handlers (run_capture e p c ap af jp atp w)))) jp
           \<and> (\<forall>f \<in> set (expected_filenames (files (snd (handlers (run_capture e p c ap af jp atp w)))) jp).
                 path_exists (files (snd (handlers (run_capture e p c ap af jp atp w)))) (atp @ os_sep @ f))
           \<and> summary_readable (files (snd (handlers (run_capture e p c ap af jp atp w)))) jp)
     \<and> not_found (trace (snd (handlers (run_capture e p c ap af jp atp w)))) =
           not_found (trace w) @
           (if streams_decode e \<and> scoop_exit_code e = Some 0
               \<and> path_exists (files (snd (handlers (run_capture e p c ap af jp atp w)))) ap
               \<and> path_exists (files (snd (handlers (run_capture e p c ap af jp atp w)))) jp
               \<and> summary_readable (files (snd (handlers (run_capture e p c ap af jp atp w)))) jp
            then filter (\<lambda>q. \<not> path_exists (files (snd (handlers (run_capture e p c ap af jp atp w)))) q)
                   (map (\<lambda>f. atp @ os_sep @ f)
                      (expected_filenames (files (snd (handlers (run_capture e p c ap af jp atp w)))) jp))
            else [])"
    (is "\<exists>c'. ?P c'")
proof -
  let ?fr = "run_capture e p c ap af jp atp w"
  note hw = handlers_world [of ?fr]
  show ?thesis
  proof (cases "\<exists>t out err. communicate_timeout (app_config e) = Some t
           \<and> \<not> interrupted (popen e) \<and> duration (popen e) \<le> t
           \<and> decode (stdout (popen e)) = Some out \<and> decode (stderr (popen e)) = Some err")
    case False
    from run_capture_aborted [OF False, of p c ap af jp atp w]
    have r: "raised_of ?fr \<noteq> None"
      and nf: "not_found (trace (world_of ?fr)) = not_found (trace w)"
      and no: "\<not> (streams_decode e \<and> scoop_exit_code e = Some 0)"
      by auto
    from run_capture_frame [OF g, of e p ap af jp atp] obtain c1 y where
      c1: "capture_of ?fr = Some c1" "id_capture c1 = id_capture c"
          "get_capture (id_capture c1) (store (world_of ?fr)) = Some y"
          "raised_of ?fr = None \<Longrightarrow> y = c1"
      by auto
    from handlers_persist [OF c1(1) c1(3) c1(4)] r obtain c' where
      c': "fst (handlers ?fr) = Some c'" "get_capture (id_capture c') (store (snd (handlers ?fr))) = Some c'"
          "id_capture c' = id_capture c1" "status c' = Failed"
      by auto
    define H where "H = handlers ?fr"
    note c'' = c' [folded H_def] and hw' = hw [folded H_def]
    show ?thesis
      apply (rule exI [of _ c'])
      unfolding H_def [symmetric]
      using c'' c1(2) no nf hw' by auto
  next
    case True
    then obtain t out err where ok: "communicate_timeout (app_config e) = Some t"
        "\<not> interrupted (popen e)" "duration (popen e) \<le> t"
        "decode (stdout (popen e)) = Some out" "decode (stderr (popen e)) = Some err"
      by blast
    have sd: "streams_decode e" using ok by (simp add: streams_decode_def)
    have sx: "scoop_exit_code e = poll (popen e)" using ok by (simp add: scoop_exit_code_def not_less)
    let ?c = "c\<lparr>stdout_logs := Some out, stderr_logs := Some err\<rparr>"
    let ?w1 = "w\<lparr>files := writes (popen e) @ files w,
                  trace := trace w @ [Popen (scoop_args_of (app_config e) c ap af jp atp p)]
                      @ (case poll (popen e) of None \<Rightarrow> [Sleep 5, Kill] | Some _ \<Rightarrow> [])\<rparr>"
    have eq: "?fr = check_capture_results ?c (poll (popen e)) ap jp atp ?w1"
      by (rule run_capture_completed [OF ok])
    have g1: "get_capture (id_capture ?c) (store ?w1) \<noteq> None" using g by simp
    have nf1: "not_found (trace ?w1) = not_found (trace w)"
      by (simp split: option.splits)
    have fs1: "files ?w1 = writes (popen e) @ files w" by simp
    show ?thesis
    proof (cases "raised_of ?fr")
      case None
      from check_capture_results_verdict [OF g1 None [unfolded eq], folded eq]
      obtain c' where c': "capture_of ?fr = Some c'" "id_capture c' = id_capture c"
        "get_capture (id_capture c) (store (world_of ?fr)) = Some c'"
        "status c' = Success \<or> status c' = Failed"
        "status c' = Success \<longleftrightarrow>
           poll (popen e) = Some 0 \<and> path_exists (files ?w1) ap \<and> path_exists (files ?w1) jp
           \<and> (\<forall>f \<in> set (expected_filenames (files ?w1) jp). path_exists (files ?w1) (atp @ os_sep @ f))"
        "files (world_of ?fr) = files ?w1"
        "not_found (trace (world_of ?fr)) =
                 not_found (trace ?w1) @
                 (if poll (popen e) = Some 0 \<and> path_exists (files ?w1) ap \<and> path_exists (files ?w1) jp
                  then filter (\<lambda>q. \<not> path_exists (files ?w1) q)
                         (map (\<lambda>f. atp @ os_sep @ f) (expected_filenames (files ?w1) jp))
                  else [])"
        by auto
      have rd: "summary_readable (files ?w1) jp"
        if "poll (popen e) = Some 0" "path_exists (files ?w1) ap" "path_exists (files ?w1) jp"
        using check_capture_results_readable [of ?c ap jp atp ?w1] None that
        by (simp only: eq)
      have h: "handlers ?fr = (Some c', world_of ?fr)"
        using None c'(1) by (cases ?fr) (simp add: handlers_def frame_defs)
      define FS where "FS = files ?w1"
      have f1: "fst (handlers ?fr) = Some c'" and f2: "files (snd (handlers ?fr)) = FS"
        and f3: "store (snd (handlers ?fr)) = store (world_of ?fr)"
        and f4: "not_found (trace (snd (handlers ?fr))) = not_found (trace (world_of ?fr))"
        by (simp_all add: h c'(6) FS_def)
      note v = c'(5) [folded FS_def] and n = c'(7) [folded FS_def, unfolded nf1]
        and r = rd [folded FS_def]
      show ?thesis
        apply (rule exI [of _ c'])
        unfolding f1 f2 f3 f4 n sx
        using c'(2,3,4) v r sd by auto
    next
      case (Some ex)
      then have r: "raised_of ?fr \<noteq> None" by simp
      from check_capture_results_raised [of ?c "poll (popen e)" ap jp atp ?w1] r
      have bad: "\<not> summary_readable (files ?w1) jp"
        and fl: "files (world_of ?fr) = files ?w1"
        and nf: "not_found (trace (world_of ?fr)) = not_found (trace ?w1)"
        by (auto simp: eq)
      from check_capture_results_logs [OF g1, of "poll (popen e)" ap jp atp, folded eq]
      obtain c1 y where c1: "capture_of ?fr = Some c1" "id_capture c1 = id_capture c"
          "get_capture (id_capture c1) (store (world_of ?fr)) = Some y"
          "raised_of ?fr = None \<Longrightarrow> y = c1"
        by auto
      from handlers_persist [OF c1(1) c1(3) c1(4)] r obtain c' where
        c': "fst (handlers ?fr) = Some c'" "get_capture (id_capture c') (store (snd (handlers ?fr))) = Some c'"
            "id_capture c' = id_capture c1" "status c' = Failed"
        by auto
      define H where "H = handlers ?fr"
      define FS where "FS = files ?w1"
      note c'' = c' [folded H_def] and hw' = hw [folded H_def, unfolded fl nf nf1, folded FS_def]
        and bad' = bad [folded FS_def]
      show ?thesis
        apply (rule exI [of _ c'])
        unfolding H_def [symmetric]
        using c'' c1(2) bad' hw' by auto
    qed
  qed
qed

subsection \<open>The verdict of a cycle that ran the engine\<close>

text \<open>
  C1, as the spec states it, makes the four conditions (exit code 0, archive present,
  summary present, every listed attachment present) sufficient for \<open>Success\<close>. On the code
  they are not: the engine below exits with code 0 and leaves the archive, the summary
  and all three attachments, but its standard error is not valid UTF-8. Line 206 raises,
  the handler of lines 283-287 marks the job failed, and the record keeps \<open>Failed\<close>.
\<close>

theorem undecodable_output_ends_failed:
  "popens (trace (start_capture_process env_garbled (Some 9000) world0)) = [scoop_args0]
   \<and> poll (popen env_garbled) = Some 0
   \<and> verified (app_config env_garbled) (poll (popen env_garbled)) job1_garbled
        (files (start_capture_process env_garbled (Some 9000) world0))
   \<and> get_capture ''j1'' (store (start_capture_process env_garbled (Some 9000) world0))
        = Some job1_garbled
   \<and> status job1_garbled = Failed"
  by (simp add: cycle_defs fixture_defs env_garbled_def garbled_run_def job1_garbled_def
        scoop_args0_def verified_def expected_filenames_def)

text \<open>
  C1, amended: for every cycle that ran the engine, whatever way its \<^verbatim>\<open>try\<close> block ends,
  the job record left in the table is \<open>Success\<close> or \<open>Failed\<close>, and it is \<open>Success\<close> exactly
  when both captured streams decode as UTF-8, the engine exited within the bound with
  code 0, the archive exists, the summary exists and can be read as a document with an
  attachments map, and for every filename of the flattened map the path made of the
  attachments directory, the separator and the filename exists. When the loop over the
  filenames is reached it prints one line for every missing path, so it visits every entry.
\<close>

theorem capture_status_iff_readable_and_verified:
  assumes "p \<noteq> 0" and "p \<le> 65535"
    and "process_of (try_block e p w)"
  shows "\<exists>c. fst (handlers (try_block e p w)) = Some c
     \<and> get_capture (id_capture c) (store (start_capture_process e (Some p) w)) = Some c
     \<and> (status c = Success \<or> status c = Failed)
     \<and> (status c = Success \<longleftrightarrow>
           streams_decode e
           \<and> verified (app_config e) (scoop_exit_code e) c (files (start_capture_process e (Some p) w))
           \<and> summary_readable (files (start_capture_process e (Some p) w))
                 (json_summary_path_of (app_config e) c))
     \<and> not_found (trace (start_capture_process e (Some p) w)) =
           not_found (trace w) @
           (if streams_decode e \<and> scoop_exit_code e = Some 0
               \<and> path_exists (files (start_capture_process e (Some p) w)) (archive_path_of (app_config e) c)
               \<and> path_exists (files (start_capture_process e (Some p) w)) (json_summary_path_of (app_config e) c)
               \<and> summary_readable (files (start_capture_process e (Some p) w))
                     (json_summary_path_of (app_config e) c)
            then missing_attachments (app_config e) c (files (start_capture_process e (Some p) w))
            else [])"
proof -
  let ?cfg = "app_config e"
  from try_block_spawned [OF assms(3)] obtain c0 w0 where
    tb: "try_block e p w =
            run_capture e p c0 (archive_path_of ?cfg c0) (archive_format_of ?cfg)
              (json_summary_path_of ?cfg c0) (attachments_path_of ?cfg c0) w0"
    and g: "get_capture (id_capture c0) (store w0) = Some c0"
    and t: "trace w0 = trace w @ [Head p, Update (id_capture c0)]"
    by blast
  have g0: "get_capture (id_capture c0) (store w0) \<noteq> None" using g by simp
  have nf0: "not_found (trace w0) = not_found (trace w)" by (simp add: t)
  define H where "H = handlers (try_block e p w)"
  have final: "start_capture_process e (Some p) w = finally_block e p H"
    using assms(1,2) by (simp add: start_capture_process_def H_def)
  from run_capture_verdict [OF g0, of e p "archive_path_of ?cfg c0" "archive_format_of ?cfg"
      "json_summary_path_of ?cfg c0" "attachments_path_of ?cfg c0", folded tb, folded H_def,
      unfolded nf0]
  obtain c where c: "fst H = Some c" "id_capture c = id_capture c0"
     "get_capture (id_capture c0) (store (snd H)) = Some c"
     "status c = Success \<or> status c = Failed"
     "status c = Success \<longleftrightarrow>
           streams_decode e \<and> scoop_exit_code e = Some 0
           \<and> path_exists (files (snd H)) (archive_path_of ?cfg c0)
           \<and> path_exists (files (snd H)) (json_summary_path_of ?cfg c0)
           \<and> (\<forall>f \<in> set (expected_filenames (files (snd H)) (json_summary_path_of ?cfg c0)).
                 path_exists (files (snd H)) (attachments_path_of ?cfg c0 @ os_sep @ f))
           \<and> summary_readable (files (snd H)) (json_summary_path_of ?cfg c0)"
     "not_found (trace (snd H)) =
           not_found (trace w) @
           (if streams_decode e \<and> scoop_exit_code e = Some 0
               \<and> path_exists (files (snd H)) (archive_path_of ?cfg c0)
               \<and> path_exists (files (snd H)) (json_summary_path_of ?cfg c0)
               \<and> summary_readable (files (snd H)) (json_summary_path_of ?cfg c0)
            then filter (\<lambda>q. \<not> path_exists (files (snd H)) q)
                   (map (\<lambda>f. attachments_path_of ?cfg c0 @ os_sep @ f)
                      (expected_filenames (files (snd H)) (json_summary_path_of ?cfg c0)))
            else [])"
    by blast
  note paths = paths_by_id [OF c(2), of ?cfg]
  show ?thesis
    apply (rule exI [of _ c])
    unfolding final H_def [symmetric] finally_fields verified_def missing_attachments_def paths
    using c by auto
qed

theorem capture_status_iff_readable_and_verified_witness:
  "process_of (try_block env0 9000 world0)
   \<and> get_capture ''j1'' (store (start_capture_process env0 (Some 9000) world0)) = Some job1_done
   \<and> status job1_done = Success
   \<and> streams_decode env0
   \<and> verified (app_config env0) (scoop_exit_code env0) job1_done
        (files (start_capture_process env0 (Some 9000) world0))
   \<and> summary_readable (files (start_capture_process env0 (Some 9000) world0))
        (json_summary_path_of (app_config env0) job1_done)"
proof -
  have g1: "(9000::int) \<noteq> 0" and g2: "(9000::int) \<le> 65535" by simp_all
  have h3: "process_of (try_block env0 9000 world0)"
    by (simp add: cycle_defs fixture_defs process_of_def)
  have ev: "fst (handlers (try_block env0 9000 world0)) = Some job1_done"
    by (simp add: cycle_defs fixture_defs job1_done_def)
  from capture_status_iff_readable_and_verified [OF g1 g2 h3] obtain c where
    c: "fst (handlers (try_block env0 9000 world0)) = Some c"
       "get_capture (id_capture c) (store (start_capture_process env0 (Some 9000) world0)) = Some c"
       "status c = Success \<longleftrightarrow>
          streams_decode env0
          \<and> verified (app_config env0) (scoop_exit_code env0) c
               (files (start_capture_process env0 (Some 9000) world0))
          \<and> summary_readable (files (start_capture_process env0 (Some 9000) world0))
               (json_summary_path_of (app_config env0) c)"
    by blast
  from c(1) ev have eq: "c = job1_done" by simp
  have s: "status job1_done = Success" and i: "id_capture job1_done = ''j1''"
    by (simp_all add: job1_done_def job1_def)
  from c(2,3) s i h3 show ?thesis unfolding eq by simp
qed

text \<open>
  An engine run that exits with code 0 and leaves the archive and the summary, but none of
  the three attachments the summary lists: the job ends \<open>Failed\<close> and each of the three
  missing files is reported.
\<close>

lemma every_missing_attachment_reported:
  "map_option status
     (get_capture ''j1'' (store (start_capture_process (env0\<lparr>popen := bare_run\<rparr>) (Some 9000) world0)))
     = Some Failed
   \<and> not_found (trace (start_capture_process (env0\<lparr>popen := bare_run\<rparr>) (Some 9000) world0))
     = [''/tmp/j1/attachments/shot.png'', ''/tmp/j1/attachments/a.pem'',
        ''/tmp/j1/attachments/b.pem'']"
  by (simp add: cycle_defs fixture_defs bare_run_def)

text \<open>
  The check is on the path, not on where the file lies: a summary that lists
  \<^verbatim>\<open>../archive.json\<close> and an empty filename is satisfied by the summary file itself and by
  the attachments directory, and the job ends \<open>Success\<close> with nothing exported.
\<close>

lemma attachment_outside_directory_accepted:
  "map_option status
     (get_capture ''j1'' (store (start_capture_process (env0\<lparr>popen := outside_run\<rparr>) (Some 9000) world0)))
     = Some Success"
  by (simp add: cycle_defs fixture_defs outside_run_def summary_outside_def)

subsection \<open>The claim race\<close>

text \<open>
  C4 on the code: another worker claims job \<open>j1\<close> between this worker's select and its
  conditional update. The update matches no row, but its row count is discarded: the cycle
  fetches the job, overwrites the other worker's \<open>started\<close> stamp (50 becomes 100), runs the
  engine for it and records a verdict.
\<close>

theorem lost_claim_race_still_runs:
  "fst (update_started ''j1'' (interference env_race (store world0))) = 0
   \<and> get_capture ''j1'' (interference env_race (store world0))
        = Some (job1\<lparr>status := Started, started_timestamp := Some 50\<rparr>)
   \<and> popens (trace (start_capture_process env_race (Some 9000) world0)) = [scoop_args0]
   \<and> get_capture ''j1'' (store (start_capture_process env_race (Some 9000) world0))
        = Some job1_done"
  by (simp add: cycle_defs fixture_defs env_race_def job1_done_def scoop_args0_def)

subsection \<open>The engine timeout\<close>

text \<open>
  C5, as the spec states it, has the process terminated gracefully, then killed after a
  grace period. On the code, when \<^verbatim>\<open>communicate\<close> times out the handler marks the job
  failed and calls \<^verbatim>\<open>process.kill()\<close> at once: the trace of the cycle has the kill right
  after the spawn, and no wait. No terminate signal exists anywhere in the task.
\<close>

theorem timeout_sends_no_terminate:
  "trace (start_capture_process env_slow (Some 9000) world0)
     = [Head 9000, Update ''j1'', Popen scoop_args0, Kill,
        Post ''https://hook.example/cb'' job1_failed 10, Delay 9000]"
  by (simp add: cycle_defs fixture_defs env_slow_def slow_run_def job1_failed_def
        scoop_args0_def)

text \<open>
  C5, amended: for every engine run that outlives the bound (capture timeout in seconds
  plus the fuse), the job's final status is \<open>Failed\<close>, persisted, and the only signal of
  the cycle is one kill, sent without any wait.
\<close>

theorem timeout_kills_at_once:
  assumes "p \<noteq> 0" and "p \<le> 65535"
    and "process_of (try_block e p w)"
    and "communicate_timeout (app_config e) = Some t"
    and "\<not> interrupted (popen e)"
    and "t < duration (popen e)"
  shows "\<exists>c. fst (handlers (try_block e p w)) = Some c
           \<and> get_capture (id_capture c) (store (start_capture_process e (Some p) w)) = Some c
           \<and> status c = Failed
           \<and> signals (trace (start_capture_process e (Some p) w)) = signals (trace w) @ [Kill]"
proof -
  from try_block_spawned [OF assms(3)] obtain c w0 where
    tb: "try_block e p w =
            run_capture e p c (archive_path_of (app_config e) c) (archive_format_of (app_config e))
              (json_summary_path_of (app_config e) c) (attachments_path_of (app_config e) c) w0"
    and g: "get_capture (id_capture c) (store w0) = Some c"
    and t: "trace w0 = trace w @ [Head p, Update (id_capture c)]"
    by blast
  let ?fr = "try_block e p w"
  have fr: "?fr = (Some TimeoutExpired, Some c, True,
            w0\<lparr>trace := trace w0 @ [Popen (scoop_args_of (app_config e) c
                (archive_path_of (app_config e) c) (archive_format_of (app_config e))
                (json_summary_path_of (app_config e) c) (attachments_path_of (app_config e) c) p)],
              files := writes (popen e) @ files w0\<rparr>)"
    unfolding tb by (rule run_capture_timeout [OF assms(4-6)])
  have a: "capture_of ?fr = Some c" and b: "raised_of ?fr = Some TimeoutExpired"
    and d: "process_of ?fr" and s: "store (world_of ?fr) = store w0"
    and tr: "signals (trace (world_of ?fr)) = signals (trace w)"
    by (simp_all add: fr frame_defs t)
  from handlers_persist [of ?fr c c] a g s b
  obtain c' where "fst (handlers ?fr) = Some c'"
      "get_capture (id_capture c') (store (snd (handlers ?fr))) = Some c'" "status c' = Failed"
    by auto
  moreover have "signals (trace (snd (handlers ?fr))) = signals (trace w) @ [Kill]"
    by (simp add: signals_handlers b d tr)
  ultimately show ?thesis using assms(1,2)
    by (simp add: start_capture_process_def)
qed

theorem timeout_kills_at_once_witness:
  "\<exists>c. fst (handlers (try_block env_slow 9000 world0)) = Some c
      \<and> get_capture (id_capture c) (store (start_capture_process env_slow (Some 9000) world0)) = Some c
      \<and> status c = Failed
      \<and> signals (trace (start_capture_process env_slow (Some 9000) world0))
           = signals (trace world0) @ [Kill]"
proof -
  have g1: "(9000::int) \<noteq> 0" and g2: "(9000::int) \<le> 65535" by simp_all
  have h3: "process_of (try_block env_slow 9000 world0)"
    by (simp add: cycle_defs fixture_defs env_slow_def slow_run_def process_of_def)
  have h4: "communicate_timeout (app_config env_slow) = Some 65"
    by (simp add: communicate_timeout_def fixture_defs env_slow_def)
  have h5: "\<not> interrupted (popen env_slow)" and h6: "65 < duration (popen env_slow)"
    by (simp_all add: fixture_defs env_slow_def slow_run_def)
  show ?thesis by (rule timeout_kills_at_once [OF g1 g2 h3 h4 h5 h6])
qed

subsection \<open>What is persisted of the engine run\<close>

text \<open>
  C7, as the spec states it, has the exit code and both streams on the job record on every
  path. On the code the streams are assigned only after \<^verbatim>\<open>communicate\<close> has returned:
  on the timeout path the engine was spawned and had written output, and the record keeps
  no stream. The exit code is never assigned to the record: runs that exit with code 1 and
  with code 2 leave the same state.
\<close>

theorem timeout_streams_not_persisted:
  "popens (trace (start_capture_process env_slow (Some 9000) world0)) = [scoop_args0]
   \<and> stdout (popen env_slow) = Utf8 ''partial''
   \<and> get_capture ''j1'' (store (start_capture_process env_slow (Some 9000) world0))
        = Some job1_failed
   \<and> stdout_logs job1_failed = None \<and> stderr_logs job1_failed = None
   \<and> start_capture_process (env0\<lparr>popen := good_run\<lparr>poll := Some 1\<rparr>\<rparr>) (Some 9000) world0
        = start_capture_process (env0\<lparr>popen := good_run\<lparr>poll := Some 2\<rparr>\<rparr>) (Some 9000) world0"
  by (simp add: cycle_defs fixture_defs env_slow_def slow_run_def job1_failed_def
        scoop_args0_def)

text \<open>
  C7, amended: for every cycle in which the engine was spawned, \<^verbatim>\<open>communicate\<close> returned
  within the bound and both streams decode, the job record in the table ends with both
  streams, whatever the verification decides. The exit code decides the status only: two
  runs that differ in a non-zero exit code end in the same state.
\<close>

theorem streams_persisted_when_completed:
  assumes "p \<noteq> 0" and "p \<le> 65535"
    and "process_of (try_block e p w)"
    and "communicate_timeout (app_config e) = Some t"
    and "\<not> interrupted (popen e)"
    and "duration (popen e) \<le> t"
    and "decode (stdout (popen e)) = Some out"
    and "decode (stderr (popen e)) = Some err"
  shows "(\<exists>c. fst (handlers (try_block e p w)) = Some c
           \<and> get_capture (id_capture c) (store (start_capture_process e (Some p) w)) = Some c
           \<and> stdout_logs c = Some out \<and> stderr_logs c = Some err)
       \<and> (\<forall>a b. a \<noteq> 0 \<longrightarrow> b \<noteq> 0 \<longrightarrow>
             start_capture_process (e\<lparr>popen := (popen e)\<lparr>poll := Some a\<rparr>\<rparr>) (Some p) w
               = start_capture_process (e\<lparr>popen := (popen e)\<lparr>poll := Some b\<rparr>\<rparr>) (Some p) w)"
proof (rule conjI)
  from try_block_spawned [OF assms(3)] obtain c w0 where
    tb: "try_block e p w =
            run_capture e p c (archive_path_of (app_config e) c) (archive_format_of (app_config e))
              (json_summary_path_of (app_config e) c) (attachments_path_of (app_config e) c) w0"
    and g: "get_capture (id_capture c) (store w0) = Some c"
    by blast
  let ?fr = "try_block e p w"
  let ?c = "c\<lparr>stdout_logs := Some out, stderr_logs := Some err\<rparr>"
  note fr = tb [unfolded run_capture_completed [OF assms(4-8)]]
  have "\<exists>c'. capture_of ?fr = Some c' \<and> id_capture c' = id_capture ?c
           \<and> callback_url c' = callback_url ?c
           \<and> stdout_logs c' = stdout_logs ?c \<and> stderr_logs c' = stderr_logs ?c
           \<and> (\<exists>y. get_capture (id_capture ?c) (store (world_of ?fr)) = Some y
                  \<and> (raised_of ?fr = None \<longrightarrow> y = c'))"
    unfolding fr by (rule check_capture_results_logs) (simp add: g)
  then obtain c' y where c': "capture_of ?fr = Some c'" "id_capture c' = id_capture c"
      "stdout_logs c' = Some out" "stderr_logs c' = Some err"
      "get_capture (id_capture c') (store (world_of ?fr)) = Some y" "raised_of ?fr = None \<Longrightarrow> y = c'"
    by auto
  from handlers_persist [OF c'(1) c'(5) c'(6)] c'(3,4) assms(1,2)
  show "\<exists>c. fst (handlers (try_block e p w)) = Some c
           \<and> get_capture (id_capture c) (store (start_capture_process e (Some p) w)) = Some c
           \<and> stdout_logs c = Some out \<and> stderr_logs c = Some err"
    by (auto simp: start_capture_process_def)
next
  show "\<forall>a b. a \<noteq> 0 \<longrightarrow> b \<noteq> 0 \<longrightarrow>
             start_capture_process (e\<lparr>popen := (popen e)\<lparr>poll := Some a\<rparr>\<rparr>) (Some p) w
               = start_capture_process (e\<lparr>popen := (popen e)\<lparr>poll := Some b\<rparr>\<rparr>) (Some p) w"
    using cycle_exit_code by blast
qed

theorem streams_persisted_when_completed_witness:
  "\<exists>c. fst (handlers (try_block env0 9000 world0)) = Some c
      \<and> get_capture (id_capture c) (store (start_capture_process env0 (Some 9000) world0)) = Some c
      \<and> stdout_logs c = Some ''out'' \<and> stderr_logs c = Some ''err''"
proof -
  have g1: "(9000::int) \<noteq> 0" and g2: "(9000::int) \<le> 65535" by simp_all
  have h3: "process_of (try_block env0 9000 world0)"
    by (simp add: cycle_defs fixture_defs process_of_def)
  have h4: "communicate_timeout (app_config env0) = Some 65"
    by (simp add: communicate_timeout_def fixture_defs)
  have h5: "\<not> interrupted (popen env0)" and h6: "duration (popen env0) \<le> 65"
    and h7: "decode (stdout (popen env0)) = Some ''out''"
    and h8: "decode (stderr (popen env0)) = Some ''err''"
    by (simp_all add: fixture_defs decode_def)
  show ?thesis
    by (rule conjunct1 [OF streams_persisted_when_completed [OF g1 g2 h3 h4 h5 h6 h7 h8]])
qed

subsection \<open>The webhook\<close>



end
